theory Spec2Isabelle
  imports Main
begin

section \<open>Configuration\<close>

text \<open>
  The two entries of the JSON configuration that the record store is called with:
  the pruning interval in milliseconds and the bound on key generation attempts.
\<close>

definition prune :: int where
  "prune = 1800000"

definition maxIterations :: int where
  "maxIterations = 20"

section \<open>Data model\<close>

text \<open>
  A JavaScript \<open>Date\<close> is its time value in milliseconds; \<open>new Date(n)\<close> is the
  invalid date when \<open>n\<close> lies outside the range of 8.64e15 ms around the epoch.
\<close>

datatype date = Date int | Invalid_Date

definition new_Date :: "int \<Rightarrow> date" where
  "new_Date n =
     (if - 8640000000000000 \<le> n \<and> n \<le> 8640000000000000 then Date n else Invalid_Date)"

text \<open>
  One row of the table \<open>accounting\<close>, with the columns of the \<open>CREATE TABLE\<close>
  statement in \<open>migrate\<close>. A column declared \<open>NULL\<close> holds an option, \<open>None\<close>
  being SQL's \<open>NULL\<close>. The columns carry the prefix \<open>col_\<close>. Column widths and
  collations are outside the model: values are unbounded and compared by equality.
\<close>

record row =
  col_id :: int
  col_download_key :: string
  col_delete_key :: string
  col_filename :: string
  col_last_accessed :: int
  col_expired :: "int option"
  col_uploaded_by :: "string option"
  col_schem_type :: "string option"
  col_pos1 :: "string option"
  col_pos2 :: "string option"

text \<open>
  The object type \<open>SchematicRecord\<close>, with the fields of the object literal built by
  \<open>transformRowToRecord\<close>. The field \<open>id\<close> is written \<open>id'\<close>, as \<open>id\<close> is the
  identity function of HOL. A field that may be \<open>undefined\<close> or \<open>null\<close> is an option;
  a record that has not been read back from the table has no \<open>id\<close> yet.
\<close>

record SchematicRecord =
  id' :: "int option"
  downloadKey :: string
  deleteKey :: string
  fileName :: string
  expired :: "date option"
  last_accessed :: "date option"
  uploader :: "string option"
  schem_type :: "string option"
  pos1 :: "string option"
  pos2 :: "string option"

text \<open>
  The state the class works on: the table with its rows in insertion order, the
  \<open>AUTO_INCREMENT\<close> counter of the column \<open>id\<close>, the system clock as the sequence of
  readings that \<open>Date.now()\<close> will return, and the random source behind the key
  generator, each with the number of values consumed so far.
\<close>

record world =
  accounting :: "row list"
  auto_increment :: int
  clock :: "nat \<Rightarrow> int"
  ticks :: nat
  random_source :: "nat \<Rightarrow> nat"
  draws :: nat

datatype error =
    No_data_found_for_passed_delete_key
  | No_data_found_for_passed_download_key
  | No_schematic_exists_with_passed_id
  | Failed_to_generate_unique_key
  | ER_DUP_ENTRY

datatype column = Delete_key | Download_key

section \<open>Environment: clock and key generator\<close>

definition Date_now :: "world \<Rightarrow> int \<times> world" where
  "Date_now s = (clock s (ticks s), s\<lparr>ticks := Suc (ticks s)\<rparr>)"

text \<open>
  Modelled from the spec: \<open>customAlphabet\<close> belongs to the library nanoid, which is not
  part of the sources. The generator it returns produces a random key of \<open>defaultSize\<close>
  characters of the given alphabet; here each character is picked by the next value of
  the random source.
\<close>

definition customAlphabet :: "string \<Rightarrow> nat \<Rightarrow> world \<Rightarrow> string \<times> world" where
  "customAlphabet alphabet defaultSize s =
     (map (\<lambda>k. alphabet ! (random_source s (draws s + k) mod length alphabet)) [0..<defaultSize],
      s\<lparr>draws := draws s + defaultSize\<rparr>)"

definition ID_GENERATOR :: "world \<Rightarrow> string \<times> world" where
  "ID_GENERATOR = customAlphabet ''0123456789abcdef'' 32"

section \<open>The statements sent to the database\<close>

text \<open>\<open>UPDATE accounting SET expired = ? WHERE id = ?\<close>\<close>

definition update_expired :: "int \<Rightarrow> int \<Rightarrow> row list \<Rightarrow> row list" where
  "update_expired t i tbl = map (\<lambda>r. if col_id r = i then r\<lparr>col_expired := Some t\<rparr> else r) tbl"

text \<open>
  The number of rows matched by \<open>WHERE id = ?\<close>, which the driver reports as
  \<open>affectedRows\<close> (it connects with the flag that counts matched rows).
\<close>

definition affectedRows :: "int \<Rightarrow> row list \<Rightarrow> nat" where
  "affectedRows i tbl = length (filter (\<lambda>r. col_id r = i) tbl)"

text \<open>\<open>SELECT id FROM accounting WHERE <column> = ? LIMIT 1\<close>\<close>

fun column_of :: "column \<Rightarrow> row \<Rightarrow> string" where
  "column_of Delete_key r = col_delete_key r"
| "column_of Download_key r = col_download_key r"

definition select_id_where :: "column \<Rightarrow> string \<Rightarrow> row list \<Rightarrow> int list" where
  "select_id_where c key tbl = take 1 (map col_id (filter (\<lambda>r. column_of c r = key) tbl))"

text \<open>\<open>SELECT * FROM accounting WHERE last_accessed <= ? AND expired IS NULL\<close>\<close>

definition select_stale :: "int \<Rightarrow> row list \<Rightarrow> row list" where
  "select_stale cutoff tbl = filter (\<lambda>r. col_last_accessed r \<le> cutoff \<and> col_expired r = None) tbl"

section \<open>The class MySQLDatabase\<close>

definition transformRowToRecord :: "row \<Rightarrow> SchematicRecord" where
  "transformRowToRecord r =
     \<lparr> id' = Some (col_id r),
       downloadKey = col_download_key r,
       deleteKey = col_delete_key r,
       fileName = col_filename r,
       expired = (case col_expired r of
                    None \<Rightarrow> None
                  | Some n \<Rightarrow> if n \<noteq> 0 then Some (new_Date n) else None),
       last_accessed = (if col_last_accessed r \<noteq> 0
                        then Some (new_Date (col_last_accessed r)) else None),
       uploader = col_uploaded_by r,
       schem_type = col_schem_type r,
       pos1 = col_pos1 r,
       pos2 = col_pos1 r \<rparr>"

definition getAllRecords :: "world \<Rightarrow> SchematicRecord list" where
  "getAllRecords s = map transformRowToRecord (accounting s)"

definition getAllUnexpiredRecords :: "world \<Rightarrow> SchematicRecord list" where
  "getAllUnexpiredRecords s =
     map transformRowToRecord (filter (\<lambda>r. col_expired r = None) (accounting s))"

definition getSchematicRecordByDeleteKey :: "string \<Rightarrow> world \<Rightarrow> error + SchematicRecord" where
  "getSchematicRecordByDeleteKey key s =
     (case take 1 (filter (\<lambda>r. col_delete_key r = key) (accounting s)) of
        [] \<Rightarrow> Inl No_data_found_for_passed_delete_key
      | result # _ \<Rightarrow> Inr (transformRowToRecord result))"

definition getSchematicRecordByDownloadKey :: "string \<Rightarrow> world \<Rightarrow> error + SchematicRecord" where
  "getSchematicRecordByDownloadKey key s =
     (case take 1 (filter (\<lambda>r. col_download_key r = key) (accounting s)) of
        [] \<Rightarrow> Inl No_data_found_for_passed_download_key
      | result # _ \<Rightarrow> Inr (transformRowToRecord result))"

definition expireSchematicRecord :: "int \<Rightarrow> world \<Rightarrow> (error + unit) \<times> world" where
  "expireSchematicRecord recordId s =
     (let (now, s1) = Date_now s;
          s2 = s1\<lparr>accounting := update_expired now recordId (accounting s1)\<rparr>
      in if affectedRows recordId (accounting s1) < 1
         then (Inl No_schematic_exists_with_passed_id, s2)
         else (Inr (), s2))"

text \<open>
  The insert is rejected when one of the two keys is already in its \<open>UNIQUE\<close> column;
  the counter of \<open>id\<close> has been advanced by then, as the storage engine does. A new row
  has \<open>expired\<close> \<open>NULL\<close>, the default of the column.
\<close>

definition storeSchematicRecord ::
  "SchematicRecord \<Rightarrow> world \<Rightarrow> (error + SchematicRecord) \<times> world" where
  "storeSchematicRecord record s =
     (let (now, s1) = Date_now s;
          inserted = \<lparr> col_id = auto_increment s1,
                       col_download_key = downloadKey record,
                       col_delete_key = deleteKey record,
                       col_filename = fileName record,
                       col_last_accessed = now,
                       col_expired = None,
                       col_uploaded_by = uploader record,
                       col_schem_type = schem_type record,
                       col_pos1 = pos1 record,
                       col_pos2 = pos2 record \<rparr>;
          s2 = s1\<lparr>auto_increment := auto_increment s1 + 1\<rparr>
      in if downloadKey record \<in> set (map col_download_key (accounting s1))
            \<or> deleteKey record \<in> set (map col_delete_key (accounting s1))
         then (Inl ER_DUP_ENTRY, s2)
         else (Inr record, s2\<lparr>accounting := accounting s1 @ [inserted]\<rparr>))"

text \<open>
  The \<open>for\<close> loop of \<open>expireSchematicRecords\<close>: one reading of the clock and one
  \<open>UPDATE\<close> per record. A record without \<open>id\<close> binds \<open>NULL\<close>, which no row matches.
\<close>

fun expire_each :: "SchematicRecord list \<Rightarrow> world \<Rightarrow> world" where
  "expire_each [] s = s"
| "expire_each (record # records) s =
     (let (now, s1) = Date_now s
      in expire_each records
           (s1\<lparr>accounting :=
                 (case id' record of
                    None \<Rightarrow> accounting s1
                  | Some i \<Rightarrow> update_expired now i (accounting s1))\<rparr>))"

definition expireSchematicRecords :: "int \<Rightarrow> world \<Rightarrow> SchematicRecord list \<times> world" where
  "expireSchematicRecords milliseconds s =
     (let (now, s1) = Date_now s;
          cutoff = now - milliseconds;
          records = map transformRowToRecord (select_stale cutoff (accounting s1))
      in if length records = 0 then ([], s1)
         else (records, expire_each records s1))"

text \<open>
  The loop of \<open>generateUniqueKey\<close>; \<open>iterations\<close> is the counter before the test
  \<open>iterations++ < maxIterations\<close>. The parameter \<open>maxIterations\<close> is written
  \<open>maxIter\<close>, to keep it apart from the configured bound.
\<close>

function generateUniqueKey_loop ::
  "column \<Rightarrow> int \<Rightarrow> int \<Rightarrow> world \<Rightarrow> (error + string) \<times> world" where
  "generateUniqueKey_loop c maxIter iterations s =
     (if iterations < maxIter
      then (let (key, s1) = ID_GENERATOR s
            in if length (select_id_where c key (accounting s1)) = 0
               then (Inr key, s1)
               else generateUniqueKey_loop c maxIter (iterations + 1) s1)
      else (Inl Failed_to_generate_unique_key, s))"
  by pat_completeness auto
termination
  by (relation "measure (\<lambda>(c, maxIter, iterations, s). nat (maxIter - iterations))") auto

declare generateUniqueKey_loop.simps [simp del]

definition generateUniqueKey :: "column \<Rightarrow> int \<Rightarrow> world \<Rightarrow> (error + string) \<times> world" where
  "generateUniqueKey c maxIter s = generateUniqueKey_loop c maxIter 0 s"

definition generateDeletionKey :: "int \<Rightarrow> world \<Rightarrow> (error + string) \<times> world" where
  "generateDeletionKey maxIter s = generateUniqueKey Delete_key maxIter s"

definition generateDownloadKey :: "int \<Rightarrow> world \<Rightarrow> (error + string) \<times> world" where
  "generateDownloadKey maxIter s = generateUniqueKey Download_key maxIter s"

section \<open>Example states\<close>

text \<open>
  A store with an empty table, a clock that advances by one second per reading and a
  random source that makes the \<open>n\<close>-th generated key the digit \<open>n mod 16\<close> repeated.
\<close>

definition empty_world :: world where
  "empty_world =
     \<lparr> accounting = [], auto_increment = 1,
       clock = (\<lambda>n. 1700000000000 + 1000 * int n), ticks = 0,
       random_source = (\<lambda>n. n div 32), draws = 0 \<rparr>"

definition house :: SchematicRecord where
  "house =
     \<lparr> id' = None,
       downloadKey = ''00000000000000000000000000000000'',
       deleteKey = ''11111111111111111111111111111111'',
       fileName = ''house.schem'',
       expired = None, last_accessed = None, uploader = None,
       schem_type = Some ''schem'', pos1 = Some ''0,64,0'', pos2 = Some ''15,80,15'' \<rparr>"

definition tower :: SchematicRecord where
  "tower =
     \<lparr> id' = None,
       downloadKey = ''22222222222222222222222222222222'',
       deleteKey = ''33333333333333333333333333333333'',
       fileName = ''tower.schem'',
       expired = None, last_accessed = None, uploader = None,
       schem_type = None, pos1 = None, pos2 = None \<rparr>"

text \<open>The store after \<open>house\<close> and then \<open>tower\<close> have been stored.\<close>

definition two_uploads :: world where
  "two_uploads = snd (storeSchematicRecord tower (snd (storeSchematicRecord house empty_world)))"

text \<open>The same store after the row of \<open>house\<close>, whose id is 1, has been expired.\<close>

definition house_expired :: world where
  "house_expired = snd (expireSchematicRecord 1 two_uploads)"

text \<open>A store whose key generator produces the deletion key of \<open>house\<close> again and again.\<close>

definition stuck_generator :: world where
  "stuck_generator = two_uploads\<lparr>random_source := (\<lambda>n. 1)\<rparr>"

section \<open>Basic facts about the statements and the clock\<close>

lemma Date_now_fst: "fst (Date_now s) = clock s (ticks s)"
  by (simp add: Date_now_def)

lemma Date_now_snd: "snd (Date_now s) = s\<lparr>ticks := Suc (ticks s)\<rparr>"
  by (simp add: Date_now_def)

lemma length_update_expired: "length (update_expired t i tbl) = length tbl"
  by (simp add: update_expired_def)

lemma update_expired_nth:
  "k < length tbl \<Longrightarrow> update_expired t i tbl ! k =
     (if col_id (tbl ! k) = i then (tbl ! k)\<lparr>col_expired := Some t\<rparr> else tbl ! k)"
  by (simp add: update_expired_def)

lemma update_expired_absent:
  "i \<notin> col_id ` set tbl \<Longrightarrow> update_expired t i tbl = tbl"
  by (induction tbl) (auto simp: update_expired_def)

lemma col_id_update_expired: "map col_id (update_expired t i tbl) = map col_id tbl"
  by (simp add: update_expired_def)

lemma update_expired_keeps_keys:
  "map col_download_key (update_expired t i tbl) = map col_download_key tbl"
  "map col_delete_key (update_expired t i tbl) = map col_delete_key tbl"
  by (simp_all add: update_expired_def)

lemma affectedRows_zero: "affectedRows i tbl = 0 \<longleftrightarrow> i \<notin> col_id ` set tbl"
  by (auto simp: affectedRows_def filter_empty_conv)

lemma affectedRows_pos: "0 < affectedRows i tbl \<longleftrightarrow> i \<in> col_id ` set tbl"
  using affectedRows_zero [of i tbl] by auto

lemma id'_transformRowToRecord: "id' (transformRowToRecord r) = Some (col_id r)"
  by (simp add: transformRowToRecord_def)

lemma expired_transformRowToRecord:
  "col_expired r = None \<Longrightarrow> expired (transformRowToRecord r) = None"
  by (simp add: transformRowToRecord_def)

lemma stale_iff:
  "r \<in> set (select_stale cutoff tbl) \<longleftrightarrow>
     r \<in> set tbl \<and> col_last_accessed r \<le> cutoff \<and> col_expired r = None"
  by (auto simp: select_stale_def)

lemma same_id_same_row:
  "distinct (map col_id tbl) \<Longrightarrow> r \<in> set tbl \<Longrightarrow> r' \<in> set tbl \<Longrightarrow> col_id r = col_id r' \<Longrightarrow>
   r = r'"
  by (auto simp: distinct_map dest: inj_onD)

section \<open>The example store\<close>

lemma two_uploads_accounting:
  "accounting two_uploads =
     [\<lparr> col_id = 1,
        col_download_key = ''00000000000000000000000000000000'',
        col_delete_key = ''11111111111111111111111111111111'',
        col_filename = ''house.schem'',
        col_last_accessed = 1700000000000, col_expired = None, col_uploaded_by = None,
        col_schem_type = Some ''schem'', col_pos1 = Some ''0,64,0'', col_pos2 = Some ''15,80,15'' \<rparr>,
      \<lparr> col_id = 2,
        col_download_key = ''22222222222222222222222222222222'',
        col_delete_key = ''33333333333333333333333333333333'',
        col_filename = ''tower.schem'',
        col_last_accessed = 1700000001000, col_expired = None, col_uploaded_by = None,
        col_schem_type = None, col_pos1 = None, col_pos2 = None \<rparr>]"
  by (simp add: two_uploads_def storeSchematicRecord_def Date_now_def empty_world_def
        house_def tower_def)

lemma two_uploads_env:
  "ticks two_uploads = 2" "clock two_uploads = (\<lambda>n. 1700000000000 + 1000 * int n)"
  "auto_increment two_uploads = 3" "draws two_uploads = 0"
  "random_source two_uploads = (\<lambda>n. n div 32)"
  by (simp_all add: two_uploads_def storeSchematicRecord_def Date_now_def empty_world_def
        house_def tower_def)

section \<open>Looking a record up\<close>

lemma filter_same_key:
  "distinct (map f xs) \<Longrightarrow> x \<in> set xs \<Longrightarrow> filter (\<lambda>y. f y = f x) xs = [x]"
proof (induction xs)
  case Nil
  then show ?case by simp
next
  case (Cons y ys)
  show ?case
  proof (cases "y = x")
    case True
    with Cons.prems(1) have "filter (\<lambda>z. f z = f x) ys = []"
      by (auto simp: filter_empty_conv image_iff)
    with True show ?thesis by simp
  next
    case False
    with Cons.prems have "x \<in> set ys" and "f y \<noteq> f x"
      by auto
    with Cons show ?thesis by simp
  qed
qed

lemma getSchematicRecordByDownloadKey_stored:
  "distinct (map col_download_key (accounting s)) \<Longrightarrow> r \<in> set (accounting s) \<Longrightarrow>
   getSchematicRecordByDownloadKey (col_download_key r) s = Inr (transformRowToRecord r)"
  by (simp add: getSchematicRecordByDownloadKey_def filter_same_key)

lemma getSchematicRecordByDeleteKey_stored:
  "distinct (map col_delete_key (accounting s)) \<Longrightarrow> r \<in> set (accounting s) \<Longrightarrow>
   getSchematicRecordByDeleteKey (col_delete_key r) s = Inr (transformRowToRecord r)"
  by (simp add: getSchematicRecordByDeleteKey_def filter_same_key)

text \<open>
  C1: for every stored record, looking it up by its download key or by its delete key
  returns a record whose fields are exactly the fields of the stored record. The code
  does not do that for \<open>pos2\<close>: \<open>transformRowToRecord\<close> fills \<open>pos2\<close> from the
  column \<open>pos1\<close>. After \<open>house\<close> has been stored in the empty table, with
  \<open>pos2 = 15,80,15\<close> in its row, both lookups return \<open>pos2 = 0,64,0\<close>, the value of
  \<open>pos1\<close>.
\<close>

theorem lookup_returns_pos1_as_pos2:
  "pos2 house = Some ''15,80,15'' \<and>
   storeSchematicRecord house empty_world = (Inr house, snd (storeSchematicRecord house empty_world)) \<and>
   col_pos2 (accounting (snd (storeSchematicRecord house empty_world)) ! 0) = Some ''15,80,15'' \<and>
   getSchematicRecordByDownloadKey (downloadKey house) (snd (storeSchematicRecord house empty_world)) =
     Inr (house\<lparr>id' := Some 1, last_accessed := Some (Date 1700000000000), pos2 := Some ''0,64,0''\<rparr>) \<and>
   getSchematicRecordByDeleteKey (deleteKey house) (snd (storeSchematicRecord house empty_world)) =
     Inr (house\<lparr>id' := Some 1, last_accessed := Some (Date 1700000000000), pos2 := Some ''0,64,0''\<rparr>)"
  by (simp add: storeSchematicRecord_def Date_now_def empty_world_def house_def
        getSchematicRecordByDownloadKey_def getSchematicRecordByDeleteKey_def
        transformRowToRecord_def new_Date_def)

section \<open>Expiring one record\<close>

lemma expireSchematicRecord_eq:
  "expireSchematicRecord recordId s =
     (if recordId \<in> col_id ` set (accounting s) then Inr () else Inl No_schematic_exists_with_passed_id,
      s\<lparr>ticks := Suc (ticks s),
         accounting := update_expired (clock s (ticks s)) recordId (accounting s)\<rparr>)"
  by (simp add: expireSchematicRecord_def Date_now_def affectedRows_zero affectedRows_pos Let_def)

text \<open>
  C6: \<open>expireSchematicRecord\<close> on an id that matches no row fails with the not-found
  error and leaves every row of the table as it was; on an id that matches a row it
  succeeds and sets the field \<open>expired\<close> of that row to the current time, the other
  rows staying as they were.
\<close>

theorem expireSchematicRecord_unknown_or_known:
  assumes "expireSchematicRecord recordId s = (res, s')"
  shows "(recordId \<notin> col_id ` set (accounting s) \<longrightarrow>
            res = Inl No_schematic_exists_with_passed_id \<and> accounting s' = accounting s) \<and>
         (recordId \<in> col_id ` set (accounting s) \<longrightarrow>
            res = Inr () \<and> length (accounting s') = length (accounting s) \<and>
            (\<forall>k < length (accounting s).
               accounting s' ! k =
                 (if col_id (accounting s ! k) = recordId
                  then (accounting s ! k)\<lparr>col_expired := Some (clock s (ticks s))\<rparr>
                  else accounting s ! k)))"
proof (intro conjI impI)
  assume "recordId \<notin> col_id ` set (accounting s)"
  with assms show "res = Inl No_schematic_exists_with_passed_id" "accounting s' = accounting s"
    by (auto simp: expireSchematicRecord_eq update_expired_absent)
next
  assume "recordId \<in> col_id ` set (accounting s)"
  with assms show "res = Inr ()" "length (accounting s') = length (accounting s)"
    by (auto simp: expireSchematicRecord_eq length_update_expired)
  from assms show "\<forall>k < length (accounting s).
               accounting s' ! k =
                 (if col_id (accounting s ! k) = recordId
                  then (accounting s ! k)\<lparr>col_expired := Some (clock s (ticks s))\<rparr>
                  else accounting s ! k)"
    by (auto simp: expireSchematicRecord_eq update_expired_nth)
qed

theorem expireSchematicRecord_unknown_or_known_witness:
  "7 \<notin> col_id ` set (accounting two_uploads) \<and>
   fst (expireSchematicRecord 7 two_uploads) = Inl No_schematic_exists_with_passed_id \<and>
   accounting (snd (expireSchematicRecord 7 two_uploads)) = accounting two_uploads \<and>
   1 \<in> col_id ` set (accounting two_uploads) \<and>
   fst (expireSchematicRecord 1 two_uploads) = Inr () \<and>
   col_expired (accounting (snd (expireSchematicRecord 1 two_uploads)) ! 0) = Some 1700000002000 \<and>
   accounting (snd (expireSchematicRecord 1 two_uploads)) ! 1 = accounting two_uploads ! 1"
proof -
  have unknown: "7 \<notin> col_id ` set (accounting two_uploads)"
    and known: "1 \<in> col_id ` set (accounting two_uploads)"
    by (simp_all add: two_uploads_accounting)
  have run: "expireSchematicRecord i two_uploads =
      (fst (expireSchematicRecord i two_uploads), snd (expireSchematicRecord i two_uploads))" for i
    by simp
  from expireSchematicRecord_unknown_or_known [OF run [of 7]] unknown
  have a: "fst (expireSchematicRecord 7 two_uploads) = Inl No_schematic_exists_with_passed_id \<and>
   accounting (snd (expireSchematicRecord 7 two_uploads)) = accounting two_uploads"
    by blast
  from expireSchematicRecord_unknown_or_known [OF run [of 1]] known
  have b: "fst (expireSchematicRecord 1 two_uploads) = Inr ()"
    and c: "\<forall>k < length (accounting two_uploads).
               accounting (snd (expireSchematicRecord 1 two_uploads)) ! k =
                 (if col_id (accounting two_uploads ! k) = 1
                  then (accounting two_uploads ! k)\<lparr>col_expired := Some (clock two_uploads (ticks two_uploads))\<rparr>
                  else accounting two_uploads ! k)"
    by blast+
  from c [rule_format, of 0] c [rule_format, of 1]
  have "col_expired (accounting (snd (expireSchematicRecord 1 two_uploads)) ! 0) = Some 1700000002000"
    and "accounting (snd (expireSchematicRecord 1 two_uploads)) ! 1 = accounting two_uploads ! 1"
    by (simp_all add: two_uploads_accounting two_uploads_env)
  with unknown known a b show ?thesis
    by blast
qed

text \<open>
  C7: after a successful \<open>expireSchematicRecord\<close> of an id, no record with that id is
  in the result of \<open>getAllUnexpiredRecords\<close>, and a record with that id is still in
  the result of \<open>getAllRecords\<close>.
\<close>

theorem expired_record_listed_but_not_unexpired:
  assumes "expireSchematicRecord recordId s = (Inr (), s')"
  shows "Some recordId \<notin> id' ` set (getAllUnexpiredRecords s') \<and>
         Some recordId \<in> id' ` set (getAllRecords s')"
proof
  from assms have known: "recordId \<in> col_id ` set (accounting s)"
    and s': "accounting s' = update_expired (clock s (ticks s)) recordId (accounting s)"
    by (auto simp: expireSchematicRecord_eq split: if_splits)
  show "Some recordId \<notin> id' ` set (getAllUnexpiredRecords s')"
    by (auto simp: getAllUnexpiredRecords_def s' update_expired_def transformRowToRecord_def)
  have "map col_id (accounting s') = map col_id (accounting s)"
    by (simp add: s' col_id_update_expired)
  then have "col_id ` set (accounting s') = col_id ` set (accounting s)"
    by (metis set_map)
  with known show "Some recordId \<in> id' ` set (getAllRecords s')"
    by (auto simp: getAllRecords_def transformRowToRecord_def image_iff)
qed

theorem expired_record_listed_but_not_unexpired_witness:
  "expireSchematicRecord 1 two_uploads = (Inr (), snd (expireSchematicRecord 1 two_uploads)) \<and>
   Some 1 \<notin> id' ` set (getAllUnexpiredRecords (snd (expireSchematicRecord 1 two_uploads))) \<and>
   Some 1 \<in> id' ` set (getAllRecords (snd (expireSchematicRecord 1 two_uploads)))"
proof -
  have run: "expireSchematicRecord 1 two_uploads = (Inr (), snd (expireSchematicRecord 1 two_uploads))"
    by (simp add: expireSchematicRecord_eq two_uploads_accounting)
  with expired_record_listed_but_not_unexpired [OF run] show ?thesis
    by blast
qed

section \<open>Storing a record\<close>

text \<open>
  C3, as the specification states it, fails: \<open>storeSchematicRecord\<close> returns the
  record it was given, not the row it inserted. For \<open>house\<close> stored in the empty
  table the returned record has neither \<open>id\<close> nor \<open>last_accessed\<close>, while the inserted
  row has the id 1 and was last accessed at 1700000000000.
\<close>

theorem storeSchematicRecord_returns_its_argument:
  "fst (storeSchematicRecord house empty_world) = Inr house \<and>
   id' house = None \<and> last_accessed house = None \<and>
   map col_id (accounting (snd (storeSchematicRecord house empty_world))) = [1] \<and>
   map col_last_accessed (accounting (snd (storeSchematicRecord house empty_world))) = [1700000000000]"
  by (simp add: storeSchematicRecord_def Date_now_def empty_world_def house_def)

text \<open>
  C3, amended: for every record whose two keys are not yet in their columns,
  \<open>storeSchematicRecord\<close> appends one row whose \<open>last_accessed\<close> is the current time,
  whose id is the one assigned by the store, whose \<open>expired\<close> is unset and whose other
  columns are the fields of the record, and it returns the record it was given,
  unchanged.
\<close>

theorem storeSchematicRecord_inserts_and_returns_argument:
  assumes "downloadKey record \<notin> col_download_key ` set (accounting s)"
    and "deleteKey record \<notin> col_delete_key ` set (accounting s)"
  shows "fst (storeSchematicRecord record s) = Inr record \<and>
         (\<exists>inserted. accounting (snd (storeSchematicRecord record s)) = accounting s @ [inserted] \<and>
            col_last_accessed inserted = clock s (ticks s) \<and>
            col_id inserted = auto_increment s \<and>
            col_download_key inserted = downloadKey record \<and>
            col_delete_key inserted = deleteKey record \<and>
            col_filename inserted = fileName record \<and>
            col_expired inserted = None \<and>
            col_uploaded_by inserted = uploader record \<and>
            col_schem_type inserted = schem_type record \<and>
            col_pos1 inserted = pos1 record \<and>
            col_pos2 inserted = pos2 record)"
  using assms by (simp add: storeSchematicRecord_def Date_now_def Let_def)

theorem storeSchematicRecord_inserts_and_returns_argument_witness:
  "downloadKey house \<notin> col_download_key ` set (accounting empty_world) \<and>
   deleteKey house \<notin> col_delete_key ` set (accounting empty_world) \<and>
   fst (storeSchematicRecord house empty_world) = Inr house \<and>
   (\<exists>inserted. accounting (snd (storeSchematicRecord house empty_world)) = [inserted] \<and>
      col_last_accessed inserted = 1700000000000 \<and> col_id inserted = 1 \<and>
      col_pos2 inserted = Some ''15,80,15'')"
proof -
  have fresh: "downloadKey house \<notin> col_download_key ` set (accounting empty_world)"
    "deleteKey house \<notin> col_delete_key ` set (accounting empty_world)"
    by (simp_all add: empty_world_def)
  from storeSchematicRecord_inserts_and_returns_argument [OF fresh]
  have "fst (storeSchematicRecord house empty_world) = Inr house \<and>
   (\<exists>inserted. accounting (snd (storeSchematicRecord house empty_world)) = [inserted] \<and>
      col_last_accessed inserted = 1700000000000 \<and> col_id inserted = 1 \<and>
      col_pos2 inserted = Some ''15,80,15'')"
    by (simp add: empty_world_def house_def) blast
  with fresh show ?thesis
    by blast
qed

text \<open>
  Storing a record keeps the ids below the counter and distinct, and keeps each of the two
  key columns free of duplicates.
\<close>

lemma storeSchematicRecord_keeps_keys_unique:
  assumes "distinct (map col_id (accounting s))"
    and "\<forall>r \<in> set (accounting s). col_id r < auto_increment s"
    and "distinct (map col_download_key (accounting s))"
    and "distinct (map col_delete_key (accounting s))"
  shows "distinct (map col_id (accounting (snd (storeSchematicRecord record s)))) \<and>
         (\<forall>r \<in> set (accounting (snd (storeSchematicRecord record s))).
            col_id r < auto_increment (snd (storeSchematicRecord record s))) \<and>
         distinct (map col_download_key (accounting (snd (storeSchematicRecord record s)))) \<and>
         distinct (map col_delete_key (accounting (snd (storeSchematicRecord record s))))"
  using assms by (auto simp: storeSchematicRecord_def Date_now_def Let_def)

section \<open>The expiry sweep\<close>

subsection \<open>The loop over the selected records\<close>

lemma expire_each_Cons:
  "expire_each (record # records) s =
     expire_each records
       (s\<lparr>ticks := Suc (ticks s),
          accounting := (case id' record of
                           None \<Rightarrow> accounting s
                         | Some i \<Rightarrow> update_expired (clock s (ticks s)) i (accounting s))\<rparr>)"
  by (simp add: Date_now_def cong: option.case_cong)

lemma expire_each_ticks: "ticks (expire_each records s) = ticks s + length records"
  by (induction records arbitrary: s) (simp_all add: expire_each_Cons del: expire_each.simps(2))

lemma expire_each_clock: "clock (expire_each records s) = clock s"
  by (induction records arbitrary: s) (simp_all add: expire_each_Cons del: expire_each.simps(2))

lemma expire_each_col_id:
  "map col_id (accounting (expire_each records s)) = map col_id (accounting s)"
  by (induction records arbitrary: s)
     (simp_all add: expire_each_Cons col_id_update_expired split: option.split del: expire_each.simps(2))

lemma expire_each_length: "length (accounting (expire_each records s)) = length (accounting s)"
  using expire_each_col_id [of records s] by (metis length_map)

lemma expire_each_untouched:
  "k < length (accounting s) \<Longrightarrow> Some (col_id (accounting s ! k)) \<notin> id' ` set records \<Longrightarrow>
   accounting (expire_each records s) ! k = accounting s ! k"
proof (induction records arbitrary: s)
  case Nil
  then show ?case by simp
next
  case (Cons rec recs)
  let ?s1 = "s\<lparr>ticks := Suc (ticks s),
          accounting := (case id' rec of
                           None \<Rightarrow> accounting s
                         | Some i \<Rightarrow> update_expired (clock s (ticks s)) i (accounting s))\<rparr>"
  from Cons.prems have other: "id' rec \<noteq> Some (col_id (accounting s ! k))"
    by (metis image_eqI list.set_intros(1))
  with Cons.prems(1) have same: "accounting ?s1 ! k = accounting s ! k"
    by (auto simp: update_expired_nth split: option.split)
  have len: "length (accounting ?s1) = length (accounting s)"
    by (simp add: length_update_expired split: option.split)
  from Cons.prems(2) same have "Some (col_id (accounting ?s1 ! k)) \<notin> id' ` set recs"
    by simp
  with Cons.prems(1) len have "accounting (expire_each recs ?s1) ! k = accounting ?s1 ! k"
    by (intro Cons.IH) simp_all
  with same show ?case
    by (simp only: expire_each_Cons)
qed

lemma expire_each_touched:
  "distinct (map id' records) \<Longrightarrow> j < length records \<Longrightarrow> k < length (accounting s) \<Longrightarrow>
   id' (records ! j) = Some (col_id (accounting s ! k)) \<Longrightarrow>
   accounting (expire_each records s) ! k =
     (accounting s ! k)\<lparr>col_expired := Some (clock s (ticks s + j))\<rparr>"
proof (induction records arbitrary: s j)
  case Nil
  then show ?case by simp
next
  case (Cons rec recs)
  let ?s1 = "s\<lparr>ticks := Suc (ticks s),
          accounting := (case id' rec of
                           None \<Rightarrow> accounting s
                         | Some i \<Rightarrow> update_expired (clock s (ticks s)) i (accounting s))\<rparr>"
  have len: "length (accounting ?s1) = length (accounting s)"
    by (simp add: length_update_expired split: option.split)
  have fresh: "id' rec \<notin> id' ` set recs" and dist: "distinct (map id' recs)"
    using Cons.prems(1) by simp_all
  show ?case
  proof (cases j)
    case 0
    with Cons.prems have hit: "id' rec = Some (col_id (accounting s ! k))"
      by simp
    with Cons.prems(3) have now: "accounting ?s1 ! k =
        (accounting s ! k)\<lparr>col_expired := Some (clock s (ticks s))\<rparr>"
      by (simp add: update_expired_nth)
    then have "col_id (accounting ?s1 ! k) = col_id (accounting s ! k)"
      by simp
    with fresh hit have "Some (col_id (accounting ?s1 ! k)) \<notin> id' ` set recs"
      by simp
    with Cons.prems(3) len have "accounting (expire_each recs ?s1) ! k = accounting ?s1 ! k"
      by (intro expire_each_untouched) simp_all
    with now 0 show ?thesis
      by (simp only: expire_each_Cons add_0_right)
  next
    case (Suc j')
    with Cons.prems have j': "j' < length recs"
      and hit: "id' (recs ! j') = Some (col_id (accounting s ! k))"
      by simp_all
    from j' have "id' (recs ! j') \<in> id' ` set recs"
      by simp
    with fresh hit have other: "id' rec \<noteq> Some (col_id (accounting s ! k))"
      by metis
    with Cons.prems(3) have same: "accounting ?s1 ! k = accounting s ! k"
      by (auto simp: update_expired_nth split: option.split)
    with hit have "id' (recs ! j') = Some (col_id (accounting ?s1 ! k))"
      by simp
    with dist j' Cons.prems(3) len
    have "accounting (expire_each recs ?s1) ! k =
            (accounting ?s1 ! k)\<lparr>col_expired := Some (clock ?s1 (ticks ?s1 + j'))\<rparr>"
      by (intro Cons.IH) simp_all
    with same Suc show ?thesis
      by (simp add: expire_each_Cons del: expire_each.simps(2))
  qed
qed

subsection \<open>The sweep as a whole\<close>

lemma expireSchematicRecords_eq:
  "expireSchematicRecords milliseconds s =
     (map transformRowToRecord (select_stale (clock s (ticks s) - milliseconds) (accounting s)),
      expire_each
        (map transformRowToRecord (select_stale (clock s (ticks s) - milliseconds) (accounting s)))
        (s\<lparr>ticks := Suc (ticks s)\<rparr>))"
  by (simp add: expireSchematicRecords_def Date_now_def Let_def)

lemma distinct_ids_of_stale:
  "distinct (map col_id tbl) \<Longrightarrow>
   distinct (map id' (map transformRowToRecord (select_stale cutoff tbl)))"
proof -
  assume "distinct (map col_id tbl)"
  then have "distinct (map col_id (select_stale cutoff tbl))"
    by (simp add: select_stale_def distinct_map_filter)
  then have "distinct (map Some (map col_id (select_stale cutoff tbl)))"
    by (subst distinct_map) simp
  moreover have "map id' (map transformRowToRecord (select_stale cutoff tbl)) =
      map Some (map col_id (select_stale cutoff tbl))"
    by (simp add: id'_transformRowToRecord)
  ultimately show ?thesis
    by (simp only:)
qed

lemma stale_row_stamped:
  assumes ids: "distinct (map col_id (accounting s))"
    and k: "k < length (accounting s)"
    and stale: "accounting s ! k \<in> set (select_stale cutoff (accounting s))"
  shows "\<exists>j < length (select_stale cutoff (accounting s)).
           select_stale cutoff (accounting s) ! j = accounting s ! k \<and>
           accounting (expire_each (map transformRowToRecord (select_stale cutoff (accounting s)))
                         (s\<lparr>ticks := Suc (ticks s)\<rparr>)) ! k =
             (accounting s ! k)\<lparr>col_expired := Some (clock s (Suc (ticks s) + j))\<rparr>"
proof -
  let ?stale = "select_stale cutoff (accounting s)"
  let ?records = "map transformRowToRecord ?stale"
  let ?s1 = "s\<lparr>ticks := Suc (ticks s)\<rparr>"
  from stale obtain j where j: "j < length ?stale" and at: "?stale ! j = accounting s ! k"
    by (auto simp: in_set_conv_nth)
  have "distinct (map id' ?records)"
    using ids by (rule distinct_ids_of_stale)
  moreover have "j < length ?records"
    using j by simp
  moreover have "k < length (accounting ?s1)"
    using k by simp
  moreover have "id' (?records ! j) = Some (col_id (accounting ?s1 ! k))"
    using j at by (simp add: id'_transformRowToRecord)
  ultimately have "accounting (expire_each ?records ?s1) ! k =
      (accounting ?s1 ! k)\<lparr>col_expired := Some (clock ?s1 (ticks ?s1 + j))\<rparr>"
    by (rule expire_each_touched)
  with j at show ?thesis
    by auto
qed

lemma other_row_kept:
  assumes ids: "distinct (map col_id (accounting s))"
    and k: "k < length (accounting s)"
    and other: "accounting s ! k \<notin> set (select_stale cutoff (accounting s))"
  shows "accounting (expire_each (map transformRowToRecord (select_stale cutoff (accounting s)))
                       (s\<lparr>ticks := Suc (ticks s)\<rparr>)) ! k = accounting s ! k"
proof -
  let ?stale = "select_stale cutoff (accounting s)"
  let ?s1 = "s\<lparr>ticks := Suc (ticks s)\<rparr>"
  have "Some (col_id (accounting s ! k)) \<notin> id' ` set (map transformRowToRecord ?stale)"
  proof
    assume "Some (col_id (accounting s ! k)) \<in> id' ` set (map transformRowToRecord ?stale)"
    then obtain r where r: "r \<in> set ?stale" and same: "col_id r = col_id (accounting s ! k)"
      by (auto simp: id'_transformRowToRecord)
    from r have "r \<in> set (accounting s)"
      by (simp add: select_stale_def)
    moreover from k have "accounting s ! k \<in> set (accounting s)"
      by simp
    ultimately have "r = accounting s ! k"
      using ids same by (blast intro: same_id_same_row)
    with r other show False
      by simp
  qed
  with k have "accounting (expire_each (map transformRowToRecord ?stale) ?s1) ! k = accounting ?s1 ! k"
    by (intro expire_each_untouched) simp_all
  then show ?thesis
    by simp
qed

text \<open>
  C4: with the cutoff \<open>now - milliseconds\<close>, \<open>expireSchematicRecords\<close> returns the
  records of exactly the rows that are unexpired and were last accessed at or before the
  cutoff. Each of these rows, and no other, is written: its \<open>expired\<close> becomes a time
  read from the clock during the sweep, after the reading that gave the cutoff. A row
  accessed after the cutoff and a row that is already expired stay as they were, and
  their ids are not among the returned records. The ids of the table are distinct, as
  its primary key makes them.
\<close>

theorem expireSchematicRecords_expires_stale_rows:
  assumes ids: "distinct (map col_id (accounting s))"
    and run: "expireSchematicRecords milliseconds s = (records, s')"
  shows "records = map transformRowToRecord
           (filter (\<lambda>r. col_expired r = None \<and> col_last_accessed r \<le> clock s (ticks s) - milliseconds)
              (accounting s)) \<and>
         length (accounting s') = length (accounting s) \<and>
         (\<forall>k < length (accounting s).
            if col_expired (accounting s ! k) = None \<and>
               col_last_accessed (accounting s ! k) \<le> clock s (ticks s) - milliseconds
            then Some (col_id (accounting s ! k)) \<in> id' ` set records \<and>
                 (\<exists>n. ticks s < n \<and> n < ticks s' \<and>
                      accounting s' ! k = (accounting s ! k)\<lparr>col_expired := Some (clock s n)\<rparr>)
            else Some (col_id (accounting s ! k)) \<notin> id' ` set records \<and>
                 accounting s' ! k = accounting s ! k)"
proof (intro conjI allI impI)
  let ?cutoff = "clock s (ticks s) - milliseconds"
  let ?stale = "select_stale ?cutoff (accounting s)"
  let ?s1 = "s\<lparr>ticks := Suc (ticks s)\<rparr>"
  from run have records: "records = map transformRowToRecord ?stale"
    and s': "s' = expire_each (map transformRowToRecord ?stale) ?s1"
    by (auto simp: expireSchematicRecords_eq)
  from records show "records = map transformRowToRecord
           (filter (\<lambda>r. col_expired r = None \<and> col_last_accessed r \<le> ?cutoff) (accounting s))"
    by (simp add: select_stale_def conj_commute)
  show "length (accounting s') = length (accounting s)"
    by (simp add: s' expire_each_length)
  have ticks': "ticks s' = Suc (ticks s) + length ?stale"
    by (simp add: s' expire_each_ticks)
  fix k assume k: "k < length (accounting s)"
  let ?r = "accounting s ! k"
  show "if col_expired ?r = None \<and> col_last_accessed ?r \<le> ?cutoff
        then Some (col_id ?r) \<in> id' ` set records \<and>
             (\<exists>n. ticks s < n \<and> n < ticks s' \<and>
                  accounting s' ! k = ?r\<lparr>col_expired := Some (clock s n)\<rparr>)
        else Some (col_id ?r) \<notin> id' ` set records \<and> accounting s' ! k = ?r"
  proof (cases "col_expired ?r = None \<and> col_last_accessed ?r \<le> ?cutoff")
    case True
    with k have stale: "?r \<in> set ?stale"
      by (simp add: stale_iff)
    then have "Some (col_id ?r) \<in> id' ` set records"
      by (auto simp: records id'_transformRowToRecord image_iff)
    moreover from stale_row_stamped [OF ids k stale]
    obtain j where "j < length ?stale"
      and "accounting s' ! k = ?r\<lparr>col_expired := Some (clock s (Suc (ticks s) + j))\<rparr>"
      unfolding s' by blast
    with ticks' have "\<exists>n. ticks s < n \<and> n < ticks s' \<and>
                  accounting s' ! k = ?r\<lparr>col_expired := Some (clock s n)\<rparr>"
      by (intro exI [of _ "Suc (ticks s) + j"]) simp
    ultimately show ?thesis
      using True by simp
  next
    case False
    with k have other: "?r \<notin> set ?stale"
      by (auto simp: stale_iff)
    have "Some (col_id ?r) \<notin> id' ` set records"
    proof
      assume "Some (col_id ?r) \<in> id' ` set records"
      then obtain r where r: "r \<in> set ?stale" and same: "col_id r = col_id ?r"
        by (auto simp: records id'_transformRowToRecord)
      from r have "r \<in> set (accounting s)"
        by (simp add: stale_iff)
      moreover from k have "?r \<in> set (accounting s)"
        by simp
      ultimately have "r = ?r"
        using ids same by (blast intro: same_id_same_row)
      with r other show False
        by simp
    qed
    moreover have "accounting s' ! k = ?r"
      unfolding s' using ids k other by (rule other_row_kept)
    ultimately show ?thesis
      using False by simp
  qed
qed

theorem expireSchematicRecords_expires_stale_rows_witness:
  "distinct (map col_id (accounting two_uploads)) \<and>
   map id' (fst (expireSchematicRecords 1500 two_uploads)) = [Some 1] \<and>
   (\<exists>n > 2. accounting (snd (expireSchematicRecords 1500 two_uploads)) ! 0 =
      (accounting two_uploads ! 0)\<lparr>col_expired := Some (1700000000000 + 1000 * int n)\<rparr>) \<and>
   accounting (snd (expireSchematicRecords 1500 two_uploads)) ! 1 = accounting two_uploads ! 1"
proof -
  have ids: "distinct (map col_id (accounting two_uploads))"
    by (simp add: two_uploads_accounting)
  have run: "expireSchematicRecords 1500 two_uploads =
      (fst (expireSchematicRecords 1500 two_uploads), snd (expireSchematicRecords 1500 two_uploads))"
    by simp
  note sweep = expireSchematicRecords_expires_stale_rows [OF ids run]
  from sweep have "map id' (fst (expireSchematicRecords 1500 two_uploads)) = [Some 1]"
    by (simp add: two_uploads_accounting two_uploads_env transformRowToRecord_def)
  moreover from sweep have rows: "\<forall>k < length (accounting two_uploads).
            if col_expired (accounting two_uploads ! k) = None \<and>
               col_last_accessed (accounting two_uploads ! k)
                 \<le> clock two_uploads (ticks two_uploads) - 1500
            then Some (col_id (accounting two_uploads ! k))
                   \<in> id' ` set (fst (expireSchematicRecords 1500 two_uploads)) \<and>
                 (\<exists>n. ticks two_uploads < n \<and> n < ticks (snd (expireSchematicRecords 1500 two_uploads)) \<and>
                      accounting (snd (expireSchematicRecords 1500 two_uploads)) ! k =
                        (accounting two_uploads ! k)\<lparr>col_expired := Some (clock two_uploads n)\<rparr>)
            else Some (col_id (accounting two_uploads ! k))
                   \<notin> id' ` set (fst (expireSchematicRecords 1500 two_uploads)) \<and>
                 accounting (snd (expireSchematicRecords 1500 two_uploads)) ! k =
                   accounting two_uploads ! k"
    by blast
  from rows [rule_format, of 0]
  have "\<exists>n > 2. accounting (snd (expireSchematicRecords 1500 two_uploads)) ! 0 =
      (accounting two_uploads ! 0)\<lparr>col_expired := Some (1700000000000 + 1000 * int n)\<rparr>"
    by (simp add: two_uploads_accounting two_uploads_env) blast
  moreover from rows [rule_format, of 1]
  have "accounting (snd (expireSchematicRecords 1500 two_uploads)) ! 1 = accounting two_uploads ! 1"
    by (simp add: two_uploads_accounting two_uploads_env)
  ultimately show ?thesis
    using ids by blast
qed

text \<open>
  C8: when no unexpired row was last accessed at or before the cutoff,
  \<open>expireSchematicRecords\<close> returns the empty list and every row of the table is as it
  was.
\<close>

theorem expireSchematicRecords_nothing_stale:
  assumes "\<forall>r \<in> set (accounting s).
             col_expired r = None \<longrightarrow> clock s (ticks s) - milliseconds < col_last_accessed r"
  shows "fst (expireSchematicRecords milliseconds s) = [] \<and>
         accounting (snd (expireSchematicRecords milliseconds s)) = accounting s"
proof -
  from assms have "select_stale (clock s (ticks s) - milliseconds) (accounting s) = []"
    by (auto simp: select_stale_def filter_empty_conv)
  then show ?thesis
    by (simp add: expireSchematicRecords_eq)
qed

theorem expireSchematicRecords_nothing_stale_witness:
  "map col_last_accessed (accounting two_uploads) = [1700000000000, 1700000001000] \<and>
   clock two_uploads (ticks two_uploads) - prune = 1699998202000 \<and>
   fst (expireSchematicRecords prune two_uploads) = [] \<and>
   accounting (snd (expireSchematicRecords prune two_uploads)) = accounting two_uploads"
proof -
  have young: "\<forall>r \<in> set (accounting two_uploads).
      col_expired r = None \<longrightarrow>
      clock two_uploads (ticks two_uploads) - prune < col_last_accessed r"
    by (simp add: two_uploads_accounting two_uploads_env prune_def)
  have "map col_last_accessed (accounting two_uploads) = [1700000000000, 1700000001000]"
    and "clock two_uploads (ticks two_uploads) - prune = 1699998202000"
    by (simp_all add: two_uploads_accounting two_uploads_env prune_def)
  with expireSchematicRecords_nothing_stale [OF young] show ?thesis
    by blast
qed

lemma sweep_all_records:
  "map id' (fst (expireSchematicRecords 0 two_uploads)) = [Some 1, Some 2]"
  by (simp add: expireSchematicRecords_eq select_stale_def two_uploads_accounting two_uploads_env
        transformRowToRecord_def)

lemma sweep_all_rows:
  "map col_id (accounting (snd (expireSchematicRecords 0 two_uploads))) = [1, 2]"
  "map col_expired (accounting (snd (expireSchematicRecords 0 two_uploads))) =
     [Some 1700000003000, Some 1700000004000]"
  by (simp_all add: expireSchematicRecords_eq select_stale_def two_uploads_accounting
        two_uploads_env transformRowToRecord_def update_expired_def Date_now_def)

text \<open>
  C9: the records returned by \<open>expireSchematicRecords\<close> are the rows as they were read
  before the updates. Each returned record has \<open>expired\<close> unset, although the row with
  its id, unexpired before the sweep, is expired after it; and the row of the \<open>j\<close>-th
  returned record carries the reading of the clock taken at its own update, the
  \<open>j + 1\<close>-th reading after the one that gave the cutoff. In the example the two rows
  expired by one sweep carry the distinct times 1700000003000 and 1700000004000.
\<close>

theorem expireSchematicRecords_returns_snapshots:
  assumes ids: "distinct (map col_id (accounting s))"
    and run: "expireSchematicRecords milliseconds s = (records, s')"
    and j: "j < length records"
  shows "expired (records ! j) = None \<and>
         (\<exists>k < length (accounting s').
            id' (records ! j) = Some (col_id (accounting s' ! k)) \<and>
            col_expired (accounting s ! k) = None \<and>
            col_expired (accounting s' ! k) = Some (clock s (ticks s + 1 + j)))"
proof
  let ?cutoff = "clock s (ticks s) - milliseconds"
  let ?stale = "select_stale ?cutoff (accounting s)"
  let ?s1 = "s\<lparr>ticks := Suc (ticks s)\<rparr>"
  from run have records: "records = map transformRowToRecord ?stale"
    and s': "s' = expire_each records ?s1"
    by (auto simp: expireSchematicRecords_eq)
  from j have j': "j < length ?stale"
    by (simp add: records)
  then have stale: "?stale ! j \<in> set ?stale"
    by simp
  then have unset: "col_expired (?stale ! j) = None"
    by (simp add: stale_iff)
  with j' show "expired (records ! j) = None"
    by (simp add: records expired_transformRowToRecord)
  from stale have "?stale ! j \<in> set (accounting s)"
    by (simp add: stale_iff)
  then obtain k where k: "k < length (accounting s)" and at: "accounting s ! k = ?stale ! j"
    by (auto simp: in_set_conv_nth)
  have "distinct (map id' records)"
    unfolding records using ids by (rule distinct_ids_of_stale)
  moreover note j
  moreover have "k < length (accounting ?s1)"
    using k by simp
  moreover have "id' (records ! j) = Some (col_id (accounting ?s1 ! k))"
    using j' at by (simp add: records id'_transformRowToRecord)
  ultimately have "accounting (expire_each records ?s1) ! k =
      (accounting ?s1 ! k)\<lparr>col_expired := Some (clock ?s1 (ticks ?s1 + j))\<rparr>"
    by (rule expire_each_touched)
  then have stamped: "accounting s' ! k = (accounting s ! k)\<lparr>col_expired := Some (clock s (ticks s + 1 + j))\<rparr>"
    by (simp add: s')
  have "k < length (accounting s')"
    using k by (simp add: s' expire_each_length)
  moreover have "id' (records ! j) = Some (col_id (accounting s' ! k))"
    using j' at stamped by (simp add: records id'_transformRowToRecord)
  moreover have "col_expired (accounting s ! k) = None"
    using at unset by simp
  moreover have "col_expired (accounting s' ! k) = Some (clock s (ticks s + 1 + j))"
    using stamped by simp
  ultimately show "\<exists>k < length (accounting s').
            id' (records ! j) = Some (col_id (accounting s' ! k)) \<and>
            col_expired (accounting s ! k) = None \<and>
            col_expired (accounting s' ! k) = Some (clock s (ticks s + 1 + j))"
    by blast
qed

theorem expireSchematicRecords_returns_snapshots_witness:
  "distinct (map col_id (accounting two_uploads)) \<and>
   length (fst (expireSchematicRecords 0 two_uploads)) = 2 \<and>
   expired (fst (expireSchematicRecords 0 two_uploads) ! 0) = None \<and>
   expired (fst (expireSchematicRecords 0 two_uploads) ! 1) = None \<and>
   (\<exists>k < length (accounting (snd (expireSchematicRecords 0 two_uploads))).
      id' (fst (expireSchematicRecords 0 two_uploads) ! 0) =
        Some (col_id (accounting (snd (expireSchematicRecords 0 two_uploads)) ! k)) \<and>
      col_expired (accounting (snd (expireSchematicRecords 0 two_uploads)) ! k) = Some 1700000003000) \<and>
   (\<exists>k < length (accounting (snd (expireSchematicRecords 0 two_uploads))).
      id' (fst (expireSchematicRecords 0 two_uploads) ! 1) =
        Some (col_id (accounting (snd (expireSchematicRecords 0 two_uploads)) ! k)) \<and>
      col_expired (accounting (snd (expireSchematicRecords 0 two_uploads)) ! k) = Some 1700000004000)"
proof -
  have ids: "distinct (map col_id (accounting two_uploads))"
    by (simp add: two_uploads_accounting)
  have run: "expireSchematicRecords 0 two_uploads =
      (fst (expireSchematicRecords 0 two_uploads), snd (expireSchematicRecords 0 two_uploads))"
    by simp
  have len: "length (fst (expireSchematicRecords 0 two_uploads)) = 2"
    using sweep_all_records by (metis length_map length_Cons list.size(3) numeral_2_eq_2)
  then have first: "0 < length (fst (expireSchematicRecords 0 two_uploads))"
    and second: "1 < length (fst (expireSchematicRecords 0 two_uploads))"
    by simp_all
  from expireSchematicRecords_returns_snapshots [OF ids run first]
       expireSchematicRecords_returns_snapshots [OF ids run second] ids len
  show ?thesis
    by (simp add: two_uploads_env) blast
qed

section \<open>The key generator\<close>

lemma ID_GENERATOR_eq:
  "ID_GENERATOR s =
     (map (\<lambda>k. ''0123456789abcdef'' ! (random_source s (draws s + k) mod 16)) [0..<32],
      s\<lparr>draws := draws s + 32\<rparr>)"
  by (simp add: ID_GENERATOR_def customAlphabet_def)

lemma customAlphabet_key:
  assumes "alphabet \<noteq> []"
  shows "length (fst (customAlphabet alphabet defaultSize s)) = defaultSize \<and>
         set (fst (customAlphabet alphabet defaultSize s)) \<subseteq> set alphabet"
proof -
  have "alphabet ! (n mod length alphabet) \<in> set alphabet" for n :: nat
    using assms by (intro nth_mem) simp
  then show ?thesis
    by (auto simp: customAlphabet_def)
qed

lemma ID_GENERATOR_key:
  "length (fst (ID_GENERATOR s)) = 32 \<and> set (fst (ID_GENERATOR s)) \<subseteq> set ''0123456789abcdef''"
  unfolding ID_GENERATOR_def by (rule customAlphabet_key) simp

lemma snd_ID_GENERATOR: "snd (ID_GENERATOR s) = s\<lparr>draws := draws s + 32\<rparr>"
  by (simp add: ID_GENERATOR_def customAlphabet_def)

lemma select_id_where_empty:
  "select_id_where c key tbl = [] \<longleftrightarrow> key \<notin> column_of c ` set tbl"
  unfolding select_id_where_def take_eq_Nil by (auto simp: filter_empty_conv)

lemma generateUniqueKey_loop_unfold:
  "generateUniqueKey_loop c maxIter iterations s =
     (if iterations < maxIter
      then if fst (ID_GENERATOR s) \<notin> column_of c ` set (accounting s)
           then (Inr (fst (ID_GENERATOR s)), s\<lparr>draws := draws s + 32\<rparr>)
           else generateUniqueKey_loop c maxIter (iterations + 1) (s\<lparr>draws := draws s + 32\<rparr>)
      else (Inl Failed_to_generate_unique_key, s))"
proof -
  obtain key s1 where gen: "ID_GENERATOR s = (key, s1)"
    by (cases "ID_GENERATOR s")
  with snd_ID_GENERATOR [of s] have s1: "s1 = s\<lparr>draws := draws s + 32\<rparr>"
    by simp
  show ?thesis
    by (subst generateUniqueKey_loop.simps) (simp add: gen s1 select_id_where_empty)
qed

lemma generateUniqueKey_loop_outcome:
  "(fst (generateUniqueKey_loop c maxIter iterations s) = Inl Failed_to_generate_unique_key \<and>
    (\<forall>j < nat (maxIter - iterations).
       fst (ID_GENERATOR (s\<lparr>draws := draws s + 32 * j\<rparr>)) \<in> column_of c ` set (accounting s))) \<or>
   (\<exists>j < nat (maxIter - iterations).
      fst (generateUniqueKey_loop c maxIter iterations s) =
        Inr (fst (ID_GENERATOR (s\<lparr>draws := draws s + 32 * j\<rparr>))) \<and>
      fst (ID_GENERATOR (s\<lparr>draws := draws s + 32 * j\<rparr>)) \<notin> column_of c ` set (accounting s) \<and>
      (\<forall>i < j. fst (ID_GENERATOR (s\<lparr>draws := draws s + 32 * i\<rparr>)) \<in> column_of c ` set (accounting s)))"
proof (induction "nat (maxIter - iterations)" arbitrary: iterations s)
  case 0
  then have "\<not> iterations < maxIter"
    by simp
  then show ?case
    by (subst generateUniqueKey_loop_unfold) simp
next
  case (Suc n)
  then have more: "iterations < maxIter" and n: "n = nat (maxIter - (iterations + 1))"
    by simp_all
  let ?s1 = "s\<lparr>draws := draws s + 32\<rparr>"
  show ?case
  proof (cases "fst (ID_GENERATOR s) \<in> column_of c ` set (accounting s)")
    case False
    with more have "fst (generateUniqueKey_loop c maxIter iterations s) = Inr (fst (ID_GENERATOR s))"
      by (subst generateUniqueKey_loop_unfold) simp
    with False more have "0 < nat (maxIter - iterations) \<and>
      fst (generateUniqueKey_loop c maxIter iterations s) =
        Inr (fst (ID_GENERATOR (s\<lparr>draws := draws s + 32 * 0\<rparr>))) \<and>
      fst (ID_GENERATOR (s\<lparr>draws := draws s + 32 * 0\<rparr>)) \<notin> column_of c ` set (accounting s) \<and>
      (\<forall>i < 0. fst (ID_GENERATOR (s\<lparr>draws := draws s + 32 * i\<rparr>)) \<in> column_of c ` set (accounting s))"
      by simp
    then show ?thesis
      by blast
  next
    case True
    with more have step: "generateUniqueKey_loop c maxIter iterations s =
        generateUniqueKey_loop c maxIter (iterations + 1) ?s1"
      by (subst generateUniqueKey_loop_unfold) simp
    have shift: "fst (ID_GENERATOR (?s1\<lparr>draws := draws ?s1 + 32 * j\<rparr>)) =
        fst (ID_GENERATOR (s\<lparr>draws := draws s + 32 * Suc j\<rparr>))" for j
      by (simp add: add.assoc)
    from Suc.hyps(1) [OF n, of ?s1]
    consider
      (failed) "fst (generateUniqueKey_loop c maxIter (iterations + 1) ?s1) = Inl Failed_to_generate_unique_key"
        "\<forall>j < n. fst (ID_GENERATOR (s\<lparr>draws := draws s + 32 * Suc j\<rparr>)) \<in> column_of c ` set (accounting s)"
    | (found) j where "j < n"
        "fst (generateUniqueKey_loop c maxIter (iterations + 1) ?s1) =
           Inr (fst (ID_GENERATOR (s\<lparr>draws := draws s + 32 * Suc j\<rparr>)))"
        "fst (ID_GENERATOR (s\<lparr>draws := draws s + 32 * Suc j\<rparr>)) \<notin> column_of c ` set (accounting s)"
        "\<forall>i < j. fst (ID_GENERATOR (s\<lparr>draws := draws s + 32 * Suc i\<rparr>)) \<in> column_of c ` set (accounting s)"
      unfolding shift n [symmetric] by auto
    then show ?thesis
    proof cases
      case failed
      have "fst (ID_GENERATOR (s\<lparr>draws := draws s + 32 * j\<rparr>)) \<in> column_of c ` set (accounting s)"
        if "j < Suc n" for j
      proof (cases j)
        case 0
        with True show ?thesis by simp
      next
        case (Suc j')
        with that failed(2) show ?thesis by simp
      qed
      with failed(1) step Suc.hyps(2) show ?thesis
        by simp
    next
      case found
      from found(1) Suc.hyps(2) have "Suc j < nat (maxIter - iterations)"
        by simp
      moreover have "fst (ID_GENERATOR (s\<lparr>draws := draws s + 32 * i\<rparr>)) \<in> column_of c ` set (accounting s)"
        if "i < Suc j" for i
      proof (cases i)
        case 0
        with True show ?thesis by simp
      next
        case (Suc i')
        with that found(4) show ?thesis by simp
      qed
      ultimately show ?thesis
        using found(2,3) step by metis
    qed
  qed
qed

lemma generateUniqueKey_loop_accounting:
  "accounting (snd (generateUniqueKey_loop c maxIter iterations s)) = accounting s"
proof (induction "nat (maxIter - iterations)" arbitrary: iterations s)
  case 0
  then have "\<not> iterations < maxIter"
    by simp
  then show ?case
    by (subst generateUniqueKey_loop_unfold) simp
next
  case (Suc n)
  then have "n = nat (maxIter - (iterations + 1))"
    by simp
  from Suc.hyps(1) [OF this, of "s\<lparr>draws := draws s + 32\<rparr>"] show ?case
    by (subst generateUniqueKey_loop_unfold) simp
qed

lemma generateUniqueKey_first_candidate:
  assumes "0 < maxIter" and "fst (ID_GENERATOR s) \<notin> column_of c ` set (accounting s)"
  shows "fst (generateUniqueKey c maxIter s) = Inr (fst (ID_GENERATOR s))"
  unfolding generateUniqueKey_def using assms by (subst generateUniqueKey_loop_unfold) simp

lemma generateUniqueKey_outcome:
  "(fst (generateUniqueKey c maxIter s) = Inl Failed_to_generate_unique_key \<and>
    (\<forall>j < nat maxIter.
       fst (ID_GENERATOR (s\<lparr>draws := draws s + 32 * j\<rparr>)) \<in> column_of c ` set (accounting s))) \<or>
   (\<exists>j < nat maxIter.
      fst (generateUniqueKey c maxIter s) =
        Inr (fst (ID_GENERATOR (s\<lparr>draws := draws s + 32 * j\<rparr>))) \<and>
      length (fst (ID_GENERATOR (s\<lparr>draws := draws s + 32 * j\<rparr>))) = 32 \<and>
      set (fst (ID_GENERATOR (s\<lparr>draws := draws s + 32 * j\<rparr>))) \<subseteq> set ''0123456789abcdef'' \<and>
      fst (ID_GENERATOR (s\<lparr>draws := draws s + 32 * j\<rparr>)) \<notin> column_of c ` set (accounting s) \<and>
      (\<forall>i < j. fst (ID_GENERATOR (s\<lparr>draws := draws s + 32 * i\<rparr>)) \<in> column_of c ` set (accounting s)))"
  using generateUniqueKey_loop_outcome [of c maxIter 0 s] ID_GENERATOR_key
  unfolding generateUniqueKey_def by (simp only: diff_zero) blast

lemma two_uploads_candidates:
  "fst (ID_GENERATOR (two_uploads\<lparr>draws := draws two_uploads + 32 * 0\<rparr>)) =
     ''00000000000000000000000000000000''"
  "fst (ID_GENERATOR (two_uploads\<lparr>draws := draws two_uploads + 32 * 1\<rparr>)) =
     ''11111111111111111111111111111111''"
  "fst (ID_GENERATOR two_uploads) = ''00000000000000000000000000000000''"
  "fst (ID_GENERATOR (two_uploads\<lparr>draws := draws two_uploads + 32\<rparr>)) =
     ''11111111111111111111111111111111''"
  by code_simp+

lemma two_uploads_keys:
  "col_delete_key ` set (accounting two_uploads) =
     {''11111111111111111111111111111111'', ''33333333333333333333333333333333''}"
  "col_download_key ` set (accounting two_uploads) =
     {''00000000000000000000000000000000'', ''22222222222222222222222222222222''}"
  by (simp_all add: two_uploads_accounting)

lemma stuck_generator_candidates:
  "fst (ID_GENERATOR (stuck_generator\<lparr>draws := d\<rparr>)) = ''11111111111111111111111111111111''"
proof -
  have "replicate 32 CHR ''1'' = ''11111111111111111111111111111111''"
    by code_simp
  then show ?thesis
    by (simp add: ID_GENERATOR_eq stuck_generator_def map_replicate_const)
qed

lemma stuck_generator_keys:
  "col_delete_key ` set (accounting stuck_generator) =
     {''11111111111111111111111111111111'', ''33333333333333333333333333333333''}"
  by (simp add: stuck_generator_def two_uploads_accounting)

text \<open>
  C5: \<open>generateDeletionKey\<close> and \<open>generateDownloadKey\<close> try the candidates that the
  generator produces, one after the other and at most \<open>maxIter\<close> of them. Either all of
  them are already in the column (\<open>delete_key\<close> or \<open>download_key\<close>) and the call fails
  with the error of exhausted generation, or the call returns the first candidate that is
  not in the column, a string of 32 characters among \<open>0123456789abcdef\<close>.
\<close>

theorem generated_key_fresh_or_exhausted:
  "((fst (generateDeletionKey maxIter s) = Inl Failed_to_generate_unique_key \<and>
     (\<forall>j < nat maxIter.
        fst (ID_GENERATOR (s\<lparr>draws := draws s + 32 * j\<rparr>)) \<in> col_delete_key ` set (accounting s))) \<or>
    (\<exists>j < nat maxIter.
       fst (generateDeletionKey maxIter s) =
         Inr (fst (ID_GENERATOR (s\<lparr>draws := draws s + 32 * j\<rparr>))) \<and>
       length (fst (ID_GENERATOR (s\<lparr>draws := draws s + 32 * j\<rparr>))) = 32 \<and>
       set (fst (ID_GENERATOR (s\<lparr>draws := draws s + 32 * j\<rparr>))) \<subseteq> set ''0123456789abcdef'' \<and>
       fst (ID_GENERATOR (s\<lparr>draws := draws s + 32 * j\<rparr>)) \<notin> col_delete_key ` set (accounting s) \<and>
       (\<forall>i < j. fst (ID_GENERATOR (s\<lparr>draws := draws s + 32 * i\<rparr>))
                  \<in> col_delete_key ` set (accounting s)))) \<and>
   ((fst (generateDownloadKey maxIter s) = Inl Failed_to_generate_unique_key \<and>
     (\<forall>j < nat maxIter.
        fst (ID_GENERATOR (s\<lparr>draws := draws s + 32 * j\<rparr>)) \<in> col_download_key ` set (accounting s))) \<or>
    (\<exists>j < nat maxIter.
       fst (generateDownloadKey maxIter s) =
         Inr (fst (ID_GENERATOR (s\<lparr>draws := draws s + 32 * j\<rparr>))) \<and>
       length (fst (ID_GENERATOR (s\<lparr>draws := draws s + 32 * j\<rparr>))) = 32 \<and>
       set (fst (ID_GENERATOR (s\<lparr>draws := draws s + 32 * j\<rparr>))) \<subseteq> set ''0123456789abcdef'' \<and>
       fst (ID_GENERATOR (s\<lparr>draws := draws s + 32 * j\<rparr>)) \<notin> col_download_key ` set (accounting s) \<and>
       (\<forall>i < j. fst (ID_GENERATOR (s\<lparr>draws := draws s + 32 * i\<rparr>))
                  \<in> col_download_key ` set (accounting s))))"
proof
  have "column_of Delete_key = col_delete_key"
    by (rule ext) simp
  with generateUniqueKey_outcome [of Delete_key maxIter s]
  show "(fst (generateDeletionKey maxIter s) = Inl Failed_to_generate_unique_key \<and>
     (\<forall>j < nat maxIter.
        fst (ID_GENERATOR (s\<lparr>draws := draws s + 32 * j\<rparr>)) \<in> col_delete_key ` set (accounting s))) \<or>
    (\<exists>j < nat maxIter.
       fst (generateDeletionKey maxIter s) =
         Inr (fst (ID_GENERATOR (s\<lparr>draws := draws s + 32 * j\<rparr>))) \<and>
       length (fst (ID_GENERATOR (s\<lparr>draws := draws s + 32 * j\<rparr>))) = 32 \<and>
       set (fst (ID_GENERATOR (s\<lparr>draws := draws s + 32 * j\<rparr>))) \<subseteq> set ''0123456789abcdef'' \<and>
       fst (ID_GENERATOR (s\<lparr>draws := draws s + 32 * j\<rparr>)) \<notin> col_delete_key ` set (accounting s) \<and>
       (\<forall>i < j. fst (ID_GENERATOR (s\<lparr>draws := draws s + 32 * i\<rparr>))
                  \<in> col_delete_key ` set (accounting s)))"
    by (simp only: generateDeletionKey_def)
  have "column_of Download_key = col_download_key"
    by (rule ext) simp
  with generateUniqueKey_outcome [of Download_key maxIter s]
  show "(fst (generateDownloadKey maxIter s) = Inl Failed_to_generate_unique_key \<and>
     (\<forall>j < nat maxIter.
        fst (ID_GENERATOR (s\<lparr>draws := draws s + 32 * j\<rparr>)) \<in> col_download_key ` set (accounting s))) \<or>
    (\<exists>j < nat maxIter.
       fst (generateDownloadKey maxIter s) =
         Inr (fst (ID_GENERATOR (s\<lparr>draws := draws s + 32 * j\<rparr>))) \<and>
       length (fst (ID_GENERATOR (s\<lparr>draws := draws s + 32 * j\<rparr>))) = 32 \<and>
       set (fst (ID_GENERATOR (s\<lparr>draws := draws s + 32 * j\<rparr>))) \<subseteq> set ''0123456789abcdef'' \<and>
       fst (ID_GENERATOR (s\<lparr>draws := draws s + 32 * j\<rparr>)) \<notin> col_download_key ` set (accounting s) \<and>
       (\<forall>i < j. fst (ID_GENERATOR (s\<lparr>draws := draws s + 32 * i\<rparr>))
                  \<in> col_download_key ` set (accounting s)))"
    by (simp only: generateDownloadKey_def)
qed

theorem generated_key_fresh_or_exhausted_witness:
  "fst (generateDeletionKey maxIterations two_uploads) = Inr ''00000000000000000000000000000000'' \<and>
   fst (generateDownloadKey maxIterations two_uploads) = Inr ''11111111111111111111111111111111'' \<and>
   fst (generateDeletionKey maxIterations stuck_generator) = Inl Failed_to_generate_unique_key"
proof (intro conjI)
  note outcome = generated_key_fresh_or_exhausted [of maxIterations two_uploads]
  have n: "nat maxIterations = 20"
    by (simp add: maxIterations_def)
  from outcome [THEN conjunct1]
  show "fst (generateDeletionKey maxIterations two_uploads) = Inr ''00000000000000000000000000000000''"
  proof (elim disjE conjE exE)
    assume "\<forall>j < nat maxIterations.
        fst (ID_GENERATOR (two_uploads\<lparr>draws := draws two_uploads + 32 * j\<rparr>))
          \<in> col_delete_key ` set (accounting two_uploads)"
    then have "fst (ID_GENERATOR (two_uploads\<lparr>draws := draws two_uploads + 32 * 0\<rparr>))
          \<in> col_delete_key ` set (accounting two_uploads)"
      using n by (metis zero_less_numeral)
    then show ?thesis
      by (simp add: two_uploads_candidates two_uploads_keys)
  next
    fix j
    assume found: "fst (generateDeletionKey maxIterations two_uploads) =
        Inr (fst (ID_GENERATOR (two_uploads\<lparr>draws := draws two_uploads + 32 * j\<rparr>)))"
      and earlier: "\<forall>i < j. fst (ID_GENERATOR (two_uploads\<lparr>draws := draws two_uploads + 32 * i\<rparr>))
                  \<in> col_delete_key ` set (accounting two_uploads)"
    have "j = 0"
    proof (rule ccontr)
      assume "j \<noteq> 0"
      with earlier have "fst (ID_GENERATOR (two_uploads\<lparr>draws := draws two_uploads + 32 * 0\<rparr>))
          \<in> col_delete_key ` set (accounting two_uploads)"
        by blast
      then show False
        by (simp add: two_uploads_candidates two_uploads_keys)
    qed
    with found show ?thesis
      by (simp only: two_uploads_candidates)
  qed
  from outcome [THEN conjunct2]
  show "fst (generateDownloadKey maxIterations two_uploads) = Inr ''11111111111111111111111111111111''"
  proof (elim disjE conjE exE)
    assume "\<forall>j < nat maxIterations.
        fst (ID_GENERATOR (two_uploads\<lparr>draws := draws two_uploads + 32 * j\<rparr>))
          \<in> col_download_key ` set (accounting two_uploads)"
    then have "fst (ID_GENERATOR (two_uploads\<lparr>draws := draws two_uploads + 32 * 1\<rparr>))
          \<in> col_download_key ` set (accounting two_uploads)"
      using n by (metis one_less_numeral_iff semiring_norm(76))
    then show ?thesis
      by (simp add: two_uploads_candidates two_uploads_keys)
  next
    fix j
    assume found: "fst (generateDownloadKey maxIterations two_uploads) =
        Inr (fst (ID_GENERATOR (two_uploads\<lparr>draws := draws two_uploads + 32 * j\<rparr>)))"
      and fresh: "fst (ID_GENERATOR (two_uploads\<lparr>draws := draws two_uploads + 32 * j\<rparr>))
                  \<notin> col_download_key ` set (accounting two_uploads)"
      and earlier: "\<forall>i < j. fst (ID_GENERATOR (two_uploads\<lparr>draws := draws two_uploads + 32 * i\<rparr>))
                  \<in> col_download_key ` set (accounting two_uploads)"
    have "j \<noteq> 0"
    proof
      assume "j = 0"
      with fresh show False
        by (simp add: two_uploads_candidates two_uploads_keys)
    qed
    moreover have "\<not> 1 < j"
    proof
      assume "1 < j"
      with earlier have "fst (ID_GENERATOR (two_uploads\<lparr>draws := draws two_uploads + 32 * 1\<rparr>))
          \<in> col_download_key ` set (accounting two_uploads)"
        by blast
      then show False
        by (simp add: two_uploads_candidates two_uploads_keys)
    qed
    ultimately have "j = 1"
      by simp
    with found show ?thesis
      by (simp only: two_uploads_candidates)
  qed
  from generated_key_fresh_or_exhausted [of maxIterations stuck_generator, THEN conjunct1]
  show "fst (generateDeletionKey maxIterations stuck_generator) = Inl Failed_to_generate_unique_key"
  proof (elim disjE conjE exE)
    fix j
    assume "fst (ID_GENERATOR (stuck_generator\<lparr>draws := draws stuck_generator + 32 * j\<rparr>))
                  \<notin> col_delete_key ` set (accounting stuck_generator)"
    then show ?thesis
      by (simp add: stuck_generator_candidates stuck_generator_keys)
  qed
qed

text \<open>
  C10: a candidate is checked against its own column only. When at least one attempt is
  allowed and the first candidate is not in the column \<open>delete_key\<close>,
  \<open>generateDeletionKey\<close> returns it, whatever the column \<open>download_key\<close> holds, and
  likewise \<open>generateDownloadKey\<close>; and there are stores in which the generated deletion
  key is an existing download key, and stores in which the generated download key is an
  existing deletion key.
\<close>

theorem key_uniqueness_is_per_column:
  "(0 < maxIter \<and> fst (ID_GENERATOR s) \<notin> col_delete_key ` set (accounting s) \<longrightarrow>
      fst (generateDeletionKey maxIter s) = Inr (fst (ID_GENERATOR s))) \<and>
   (0 < maxIter \<and> fst (ID_GENERATOR s) \<notin> col_download_key ` set (accounting s) \<longrightarrow>
      fst (generateDownloadKey maxIter s) = Inr (fst (ID_GENERATOR s))) \<and>
   (\<exists>w key. fst (generateDeletionKey maxIterations w) = Inr key \<and>
      key \<in> col_download_key ` set (accounting w)) \<and>
   (\<exists>w key. fst (generateDownloadKey maxIterations w) = Inr key \<and>
      key \<in> col_delete_key ` set (accounting w))"
proof (intro conjI impI)
  assume "0 < maxIter \<and> fst (ID_GENERATOR s) \<notin> col_delete_key ` set (accounting s)"
  then show "fst (generateDeletionKey maxIter s) = Inr (fst (ID_GENERATOR s))"
    unfolding generateDeletionKey_def by (intro generateUniqueKey_first_candidate) auto
next
  assume "0 < maxIter \<and> fst (ID_GENERATOR s) \<notin> col_download_key ` set (accounting s)"
  then show "fst (generateDownloadKey maxIter s) = Inr (fst (ID_GENERATOR s))"
    unfolding generateDownloadKey_def by (intro generateUniqueKey_first_candidate) auto
next
  have "fst (generateUniqueKey Delete_key maxIterations two_uploads) =
      Inr (fst (ID_GENERATOR two_uploads))"
    by (rule generateUniqueKey_first_candidate)
       (simp_all add: maxIterations_def two_uploads_candidates two_uploads_accounting)
  then have "fst (generateDeletionKey maxIterations two_uploads) =
        Inr ''00000000000000000000000000000000'' \<and>
      ''00000000000000000000000000000000'' \<in> col_download_key ` set (accounting two_uploads)"
    by (simp add: generateDeletionKey_def two_uploads_candidates two_uploads_accounting)
  then show "\<exists>w key. fst (generateDeletionKey maxIterations w) = Inr key \<and>
      key \<in> col_download_key ` set (accounting w)"
    by blast
next
  let ?w = "two_uploads\<lparr>draws := draws two_uploads + 32\<rparr>"
  have "fst (generateUniqueKey Download_key maxIterations ?w) = Inr (fst (ID_GENERATOR ?w))"
    by (rule generateUniqueKey_first_candidate)
       (simp_all add: maxIterations_def two_uploads_candidates two_uploads_accounting)
  then have "fst (generateDownloadKey maxIterations ?w) =
        Inr ''11111111111111111111111111111111'' \<and>
      ''11111111111111111111111111111111'' \<in> col_delete_key ` set (accounting ?w)"
    by (simp add: generateDownloadKey_def two_uploads_candidates two_uploads_accounting)
  then show "\<exists>w key. fst (generateDownloadKey maxIterations w) = Inr key \<and>
      key \<in> col_delete_key ` set (accounting w)"
    by blast
qed

theorem key_uniqueness_is_per_column_witness:
  "0 < maxIterations \<and>
   fst (ID_GENERATOR two_uploads) \<notin> col_delete_key ` set (accounting two_uploads) \<and>
   fst (generateDeletionKey maxIterations two_uploads) = Inr ''00000000000000000000000000000000'' \<and>
   ''00000000000000000000000000000000'' \<in> col_download_key ` set (accounting two_uploads) \<and>
   fst (ID_GENERATOR (two_uploads\<lparr>draws := draws two_uploads + 32\<rparr>))
     \<notin> col_download_key ` set (accounting (two_uploads\<lparr>draws := draws two_uploads + 32\<rparr>)) \<and>
   fst (generateDownloadKey maxIterations (two_uploads\<lparr>draws := draws two_uploads + 32\<rparr>)) =
     Inr ''11111111111111111111111111111111'' \<and>
   ''11111111111111111111111111111111''
     \<in> col_delete_key ` set (accounting (two_uploads\<lparr>draws := draws two_uploads + 32\<rparr>))"
proof -
  let ?w = "two_uploads\<lparr>draws := draws two_uploads + 32\<rparr>"
  have pos: "0 < maxIterations"
    by (simp add: maxIterations_def)
  have fresh: "fst (ID_GENERATOR two_uploads) \<notin> col_delete_key ` set (accounting two_uploads)"
    "fst (ID_GENERATOR ?w) \<notin> col_download_key ` set (accounting ?w)"
    by (simp_all add: two_uploads_candidates two_uploads_accounting)
  have other: "''00000000000000000000000000000000'' \<in> col_download_key ` set (accounting two_uploads)"
    "''11111111111111111111111111111111'' \<in> col_delete_key ` set (accounting ?w)"
    by (simp_all add: two_uploads_accounting)
  from key_uniqueness_is_per_column [of maxIterations two_uploads] pos fresh(1)
  have "fst (generateDeletionKey maxIterations two_uploads) = Inr (fst (ID_GENERATOR two_uploads))"
    by blast
  moreover from key_uniqueness_is_per_column [of maxIterations ?w] pos fresh(2)
  have "fst (generateDownloadKey maxIterations ?w) = Inr (fst (ID_GENERATOR ?w))"
    by blast
  ultimately show ?thesis
    using pos fresh other by (simp only: two_uploads_candidates) blast
qed

section \<open>What changes the field expired\<close>

lemma house_expired_accounting:
  "accounting house_expired =
     [\<lparr> col_id = 1,
        col_download_key = ''00000000000000000000000000000000'',
        col_delete_key = ''11111111111111111111111111111111'',
        col_filename = ''house.schem'',
        col_last_accessed = 1700000000000, col_expired = Some 1700000002000, col_uploaded_by = None,
        col_schem_type = Some ''schem'', col_pos1 = Some ''0,64,0'', col_pos2 = Some ''15,80,15'' \<rparr>,
      \<lparr> col_id = 2,
        col_download_key = ''22222222222222222222222222222222'',
        col_delete_key = ''33333333333333333333333333333333'',
        col_filename = ''tower.schem'',
        col_last_accessed = 1700000001000, col_expired = None, col_uploaded_by = None,
        col_schem_type = None, col_pos1 = None, col_pos2 = None \<rparr>]"
  by (simp add: house_expired_def expireSchematicRecord_eq update_expired_def two_uploads_accounting
        two_uploads_env)

lemma house_expired_env:
  "ticks house_expired = 3" "clock house_expired = (\<lambda>n. 1700000000000 + 1000 * int n)"
  by (simp_all add: house_expired_def expireSchematicRecord_eq two_uploads_env)

text \<open>
  C2, as the specification states it, fails: the field \<open>expired\<close> of a record that is
  already expired is changed by another \<open>expireSchematicRecord\<close> of its id. The row of
  \<open>house\<close>, expired at 1700000002000, is expired again at 1700000003000.
\<close>

theorem expireSchematicRecord_overwrites_expired:
  "col_expired (accounting house_expired ! 0) = Some 1700000002000 \<and>
   col_expired (accounting (snd (expireSchematicRecord 1 house_expired)) ! 0) = Some 1700000003000"
  by (simp add: expireSchematicRecord_eq update_expired_def house_expired_accounting house_expired_env)

text \<open>
  C2, amended: once the field \<open>expired\<close> of a row is set, the expiry sweep, the storing
  of a record, the generation of a key and \<open>expireSchematicRecord\<close> of another id leave
  the row as it is (the lookups and listings only read the table);
  \<open>expireSchematicRecord\<close> of the id of the row replaces the field by the current
  time. The ids of the table are distinct.
\<close>

theorem expired_kept_except_by_expireSchematicRecord:
  assumes ids: "distinct (map col_id (accounting s))"
    and k: "k < length (accounting s)"
    and expired: "col_expired (accounting s ! k) = Some t"
  shows "accounting (snd (expireSchematicRecords milliseconds s)) ! k = accounting s ! k \<and>
         accounting (snd (storeSchematicRecord record s)) ! k = accounting s ! k \<and>
         accounting (snd (generateDeletionKey maxIter s)) ! k = accounting s ! k \<and>
         accounting (snd (generateDownloadKey maxIter s)) ! k = accounting s ! k \<and>
         (recordId \<noteq> col_id (accounting s ! k) \<longrightarrow>
            accounting (snd (expireSchematicRecord recordId s)) ! k = accounting s ! k) \<and>
         col_expired (accounting (snd (expireSchematicRecord (col_id (accounting s ! k)) s)) ! k) =
           Some (clock s (ticks s))"
proof (intro conjI impI)
  from expired have "accounting s ! k \<notin> set (select_stale (clock s (ticks s) - milliseconds) (accounting s))"
    by (simp add: stale_iff)
  with ids k show "accounting (snd (expireSchematicRecords milliseconds s)) ! k = accounting s ! k"
    by (simp add: expireSchematicRecords_eq other_row_kept)
  from k show "accounting (snd (storeSchematicRecord record s)) ! k = accounting s ! k"
    by (simp add: storeSchematicRecord_def Date_now_def Let_def nth_append)
  show "accounting (snd (generateDeletionKey maxIter s)) ! k = accounting s ! k"
    by (simp add: generateDeletionKey_def generateUniqueKey_def generateUniqueKey_loop_accounting)
  show "accounting (snd (generateDownloadKey maxIter s)) ! k = accounting s ! k"
    by (simp add: generateDownloadKey_def generateUniqueKey_def generateUniqueKey_loop_accounting)
  from k show "col_expired (accounting (snd (expireSchematicRecord (col_id (accounting s ! k)) s)) ! k) =
           Some (clock s (ticks s))"
    by (simp add: expireSchematicRecord_eq update_expired_nth)
next
  assume "recordId \<noteq> col_id (accounting s ! k)"
  with k show "accounting (snd (expireSchematicRecord recordId s)) ! k = accounting s ! k"
    by (simp add: expireSchematicRecord_eq update_expired_nth)
qed

theorem expired_kept_except_by_expireSchematicRecord_witness:
  "distinct (map col_id (accounting house_expired)) \<and>
   0 < length (accounting house_expired) \<and>
   col_expired (accounting house_expired ! 0) = Some 1700000002000 \<and>
   accounting (snd (expireSchematicRecords 0 house_expired)) ! 0 = accounting house_expired ! 0 \<and>
   accounting (snd (storeSchematicRecord tower house_expired)) ! 0 = accounting house_expired ! 0 \<and>
   accounting (snd (generateDeletionKey maxIterations house_expired)) ! 0 = accounting house_expired ! 0 \<and>
   accounting (snd (generateDownloadKey maxIterations house_expired)) ! 0 = accounting house_expired ! 0 \<and>
   accounting (snd (expireSchematicRecord 2 house_expired)) ! 0 = accounting house_expired ! 0 \<and>
   col_expired (accounting (snd (expireSchematicRecord 1 house_expired)) ! 0) = Some 1700000003000"
proof -
  have ids: "distinct (map col_id (accounting house_expired))"
    and k: "0 < length (accounting house_expired)"
    and expired: "col_expired (accounting house_expired ! 0) = Some 1700000002000"
    by (simp_all add: house_expired_accounting)
  have id: "col_id (accounting house_expired ! 0) = 1"
    by (simp add: house_expired_accounting)
  from expired_kept_except_by_expireSchematicRecord
         [OF ids k expired, of 0 tower maxIterations 2] ids k expired
  show ?thesis
    by (simp add: id house_expired_env)
qed

end
